theory Spec2Isabelle
  imports Complex_Main
begin

section \<open>Values, errors and boundary conditions\<close>

text \<open>
  The exceptions the program can raise. \<open>AttributeError\<close> is Python's own (an attribute
  read on \<open>None\<close>, or on an object that does not have the attribute yet); the other four
  are the error kinds of the specification's taxonomy.
\<close>

datatype error =
    AttributeError
  | OutOfRange
  | ShapeMismatch
  | ConfigurationConflict
  | EngineFailure

text \<open>
  The Python values that can be passed as the \<open>bcs\<close> argument: \<open>None\<close>, a boundary
  condition object (its \<open>get_boundary_values()\<close> dictionary, as the list of its items in
  iteration order), or a list of such values.
\<close>

datatype pyval =
    PyNone
  | DirichletBC "(int \<times> real) list"
  | PyList "pyval list"

text \<open>Sequencing of computations that may raise: the first exception ends the run.\<close>

definition bindE :: "error + 'a \<Rightarrow> ('a \<Rightarrow> error + 'b) \<Rightarrow> error + 'b" where
  "bindE m f = (case m of Inl e \<Rightarrow> Inl e | Inr x \<Rightarrow> f x)"

section \<open>Interior DOF selection\<close>

text \<open>
  \<open>bc.get_boundary_values()\<close>: only a boundary condition object has the method; on
  \<open>None\<close> and on a list the attribute lookup raises.
\<close>

fun get_boundary_values :: "pyval \<Rightarrow> error + (int \<times> real) list" where
  "get_boundary_values (DirichletBC d) = Inr d"
| "get_boundary_values PyNone = Inl AttributeError"
| "get_boundary_values (PyList xs) = Inl AttributeError"

text \<open>
  The loop \<open>for bc in boundary_conditions: bc_dofs.extend(bc.get_boundary_values().keys())\<close>,
  with the list \<open>bc_dofs\<close> built so far as accumulator.
\<close>

fun extend_bc_dofs :: "int list \<Rightarrow> pyval list \<Rightarrow> error + int list" where
  "extend_bc_dofs bc_dofs [] = Inr bc_dofs"
| "extend_bc_dofs bc_dofs (bc # rest) =
     (case get_boundary_values bc of
        Inl e \<Rightarrow> Inl e
      | Inr d \<Rightarrow> extend_bc_dofs (bc_dofs @ map fst d) rest)"

text \<open>
  \<open>get_interior_index_set\<close>: the function space is represented by what the method reads
  of it, the ownership range \<open>(lo, hi)\<close> of its dofmap. \<open>range(lo, hi)\<close> is \<open>[lo..hi - 1]\<close>,
  and the index set created from \<open>interior_dofs\<close> is that list.
\<close>

definition get_interior_index_set :: "pyval list \<Rightarrow> int \<times> int \<Rightarrow> error + int list" where
  "get_interior_index_set boundary_conditions ownership_range =
     (case extend_bc_dofs [] boundary_conditions of
        Inl e \<Rightarrow> Inl e
      | Inr bc_dofs \<Rightarrow>
          Inr [x \<leftarrow> [fst ownership_range .. snd ownership_range - 1]. x \<notin> set bc_dofs])"

text \<open>
  The specification's vocabulary for the selector: a value is a boundary condition
  object, the key set of one, and the constrained set of a sequence of them (the union
  of the key sets).
\<close>

fun is_bc :: "pyval \<Rightarrow> bool" where
  "is_bc (DirichletBC d) = True"
| "is_bc PyNone = False"
| "is_bc (PyList xs) = False"

fun bc_keys :: "pyval \<Rightarrow> int set" where
  "bc_keys (DirichletBC d) = fst ` set d"
| "bc_keys PyNone = {}"
| "bc_keys (PyList xs) = {}"

definition constrained :: "pyval list \<Rightarrow> int set" where
  "constrained B = (\<Union>b \<in> set B. bc_keys b)"

text \<open>A boundary condition with the keys outside \<open>[lo, hi)\<close> removed.\<close>

fun drop_outside :: "int \<Rightarrow> int \<Rightarrow> pyval \<Rightarrow> pyval" where
  "drop_outside lo hi (DirichletBC d) = DirichletBC [kv \<leftarrow> d. lo \<le> fst kv \<and> fst kv < hi]"
| "drop_outside lo hi PyNone = PyNone"
| "drop_outside lo hi (PyList xs) = PyList xs"

section \<open>Vectors, matrices and the scatter of the linear-algebra backend\<close>

text \<open>
  A vector and a matrix of the backend, as one process sees them: the entries it owns,
  and the global index of the first of them (\<open>0\<close> on a single process). The matrix is
  the block whose rows and columns are the DOFs the process owns, which on a single
  process is the whole matrix. Global index \<open>g\<close> is stored at position \<open>g - start\<close>.
\<close>

record pvec =
  vstart :: int
  vals :: "real list"

record pmat =
  mstart :: int
  mrows :: "real list list"

text \<open>
  Modelled from the spec: \<open>Function(V)\<close> of the assembly library, which is not part of
  the repository; a freshly allocated full-space function is zero-initialised and has one
  value per DOF of the ownership range. The function space \<open>V\<close> is the pair \<open>(lo, hi)\<close>.
\<close>

definition zero_function :: "int \<times> int \<Rightarrow> pvec" where
  "zero_function V = \<lparr>vstart = fst V, vals = replicate (nat (snd V - fst V)) 0\<rparr>"

text \<open>
  Modelled from the spec: \<open>createVecs\<close> and \<open>createVecRight\<close> of the backend, which are
  not part of the repository; they return vectors whose layout fits the columns
  (right vector) and the rows (left vector) of the matrix.
\<close>

definition ncols :: "pmat \<Rightarrow> nat" where
  "ncols A = (case mrows A of [] \<Rightarrow> 0 | r # rs \<Rightarrow> length r)"

definition createVecRight :: "pmat \<Rightarrow> pvec" where
  "createVecRight A = \<lparr>vstart = mstart A, vals = replicate (ncols A) 0\<rparr>"

definition createVecs :: "pmat \<Rightarrow> pvec \<times> pvec" where
  "createVecs A =
     (createVecRight A, \<lparr>vstart = mstart A, vals = replicate (length (mrows A)) 0\<rparr>)"

text \<open>
  Modelled from the spec: \<open>createSubMatrix\<close> of the backend, which is not part of the
  repository; it returns the submatrix that keeps exactly the rows of the row index set
  and the columns of the column index set, in the order of the index sets. An index that
  the matrix does not have is an error. The result is numbered from \<open>0\<close>.
\<close>

definition in_layout :: "int \<Rightarrow> nat \<Rightarrow> int \<Rightarrow> bool" where
  "in_layout start n g = (start \<le> g \<and> g < start + int n)"

definition createSubMatrix :: "pmat \<Rightarrow> int list \<Rightarrow> int list \<Rightarrow> error + pmat" where
  "createSubMatrix A isrow iscol =
     (if list_all (in_layout (mstart A) (length (mrows A))) isrow
         \<and> list_all (\<lambda>r. list_all (in_layout (mstart A) (length r)) iscol) (mrows A)
      then Inr \<lparr>mstart = 0,
                mrows = map (\<lambda>r. map (\<lambda>c. mrows A ! nat (r - mstart A) ! nat (c - mstart A)) iscol)
                          isrow\<rparr>
      else Inl OutOfRange)"

text \<open>
  Modelled from the spec: the scatter object of the backend, which is not part of the
  repository. It is constructed from the reduced-space vector, the full-space vector and
  the index set (\<open>is_from = None\<close>: every position of the source, in order); it records
  the two layouts and the index set. \<open>scatter\<close> copies \<open>source[i]\<close> into
  \<open>destination[is_to[i]]\<close> for every \<open>i\<close>, in the order of \<open>i\<close>, and leaves the other
  positions of the destination untouched; vectors that do not have the configured
  layouts are a \<open>ShapeMismatch\<close>.
\<close>

record scatter_ctx =
  from_size :: nat
  to_start :: int
  to_size :: nat
  is_to :: "int list"

definition Scatter_create :: "pvec \<Rightarrow> pvec \<Rightarrow> int list \<Rightarrow> error + scatter_ctx" where
  "Scatter_create vec_from vec_to ix =
     (if length ix \<noteq> length (vals vec_from) then Inl ShapeMismatch
      else if \<not> list_all (in_layout (vstart vec_to) (length (vals vec_to))) ix then Inl OutOfRange
      else Inr \<lparr>from_size = length (vals vec_from), to_start = vstart vec_to,
                to_size = length (vals vec_to), is_to = ix\<rparr>)"

fun insert_values :: "int \<Rightarrow> (int \<times> real) list \<Rightarrow> real list \<Rightarrow> real list" where
  "insert_values start [] dst = dst"
| "insert_values start ((g, x) # rest) dst = insert_values start rest (dst[nat (g - start) := x])"

definition scatter :: "scatter_ctx \<Rightarrow> pvec \<Rightarrow> pvec \<Rightarrow> error + pvec" where
  "scatter P vec_from vec_to =
     (if length (vals vec_from) \<noteq> from_size P \<or> length (vals vec_to) \<noteq> to_size P
         \<or> vstart vec_to \<noteq> to_start P
      then Inl ShapeMismatch
      else Inr (vec_to\<lparr>vals := insert_values (to_start P) (zip (is_to P) (vals vec_from))
                                  (vals vec_to)\<rparr>))"

text \<open>The value a full-space vector holds for global index \<open>g\<close>, and the values at an index set.\<close>

definition value_at :: "pvec \<Rightarrow> int \<Rightarrow> real" where
  "value_at v g = vals v ! nat (g - vstart v)"

definition extract_at :: "int list \<Rightarrow> pvec \<Rightarrow> real list" where
  "extract_at ix v = map (value_at v) ix"

section \<open>The eigensolver engine and the global options registry\<close>

datatype optval = IntVal int | StrVal string

text \<open>
  The eigensolver engine is an external collaborator; the record holds what the program
  sets on it and reads from it. \<open>from_options\<close> is what the engine has read from the
  options registry, \<open>converged\<close> the eigenpairs of the last solve.
\<close>

record eps =
  eps_type :: string
  problem_type :: string
  which_pairs :: string
  target :: real
  st_type :: string
  options_prefix :: "string option"
  operators :: "(pmat \<times> pmat) option"
  dimensions :: int
  from_options :: "string \<Rightarrow> optval option"
  converged :: "(complex \<times> real list \<times> real list) list"
  iteration_number :: nat

text \<open>\<open>SLEPc.EPS()\<close> followed by \<open>create()\<close>: an engine with nothing set.\<close>

definition EPS_create :: eps where
  "EPS_create = \<lparr>eps_type = [], problem_type = [], which_pairs = [], target = 0, st_type = [],
     options_prefix = None, operators = None, dimensions = 1, from_options = (\<lambda>k. None),
     converged = [], iteration_number = 0\<rparr>"

definition eigensolver_setup :: eps where
  "eigensolver_setup =
     (let E = EPS_create;
          E = E\<lparr>eps_type := ''krylovschur''\<rparr>;
          E = E\<lparr>problem_type := ''ghep''\<rparr>;
          E = E\<lparr>which_pairs := ''target_magnitude''\<rparr>;
          E = E\<lparr>target := 0\<rparr>;
          E = E\<lparr>st_type := ''sinvert''\<rparr>
      in E)"

text \<open>
  The state outside the solver object: the process-wide options registry that
  \<open>PETScOptions.set\<close> writes, the store of the vectors of the finite-element functions
  (a function is the address of its vector; allocation appends to the store), and the
  store of the dictionary objects (a dictionary is referred to by its address, and holds
  its items in iteration order).
\<close>

record world =
  petsc_options :: "string \<Rightarrow> optval option"
  heap :: "pvec list"
  dicts :: "nat \<Rightarrow> (string \<times> optval) list"

text \<open>
  The default value of the parameter \<open>slepc_options\<close> is one dictionary object, made once
  when the \<open>def\<close> statement of \<open>__init__\<close> is executed, as \<open>{'eps_max_it': 100}\<close>; every call
  that omits the argument receives a reference to this same object. A value of the
  parameter is \<open>None\<close> or a reference to a dictionary.
\<close>

definition default_slepc_options :: nat where
  "default_slepc_options = 0"

datatype pyopts = OptionsNone | OptionsDict nat

definition initial_world :: world where
  "initial_world =
     \<lparr>petsc_options = (\<lambda>k. None), heap = [],
      dicts = (\<lambda>a. if a = default_slepc_options then [(''eps_max_it'', IntVal 100)] else [])\<rparr>"

text \<open>
  \<open>Function(V)\<close> allocates the vector of the new function, zero-initialised, at the next
  free address of the store and returns the address.
\<close>

definition Function :: "int \<times> int \<Rightarrow> world \<Rightarrow> nat \<times> world" where
  "Function V w = (length (heap w), w\<lparr>heap := heap w @ [zero_function V]\<rparr>)"

definition PETScOptions_set :: "string \<Rightarrow> optval \<Rightarrow> world \<Rightarrow> world" where
  "PETScOptions_set opt v w = w\<lparr>petsc_options := (petsc_options w)(opt \<mapsto> v)\<rparr>"

text \<open>
  Modelled from the spec: \<open>setFromOptions\<close>, \<open>solve\<close> and \<open>getEigenpair\<close> of the engine,
  which are not part of the repository. \<open>setFromOptions\<close> reads the registry (under the
  engine's prefix); the outcome of \<open>solve\<close> (an engine failure, or the converged
  eigenpairs and the iteration count) is what the external iteration computes from the
  engine as it is configured when \<open>solve\<close> is called, and that function of the engine is
  a parameter here; \<open>getEigenpair\<close> of an index that is not below the converged count is an
  \<open>OutOfRange\<close> error, and otherwise overwrites the two vectors it is given.
\<close>

definition setFromOptions :: "eps \<Rightarrow> world \<Rightarrow> eps" where
  "setFromOptions E w =
     E\<lparr>from_options :=
          (\<lambda>k. petsc_options w ((case options_prefix E of None \<Rightarrow> [] | Some p \<Rightarrow> p) @ k))\<rparr>"

definition eps_solve ::
  "eps \<Rightarrow> (eps \<Rightarrow> error + ((complex \<times> real list \<times> real list) list \<times> nat)) \<Rightarrow> error + eps" where
  "eps_solve E iterate =
     (case iterate E of
        Inl e \<Rightarrow> Inl e
      | Inr (pairs, its) \<Rightarrow> Inr (E\<lparr>converged := pairs, iteration_number := its\<rparr>))"

definition getEigenpair :: "eps \<Rightarrow> int \<Rightarrow> pvec \<Rightarrow> pvec \<Rightarrow> error + (complex \<times> pvec \<times> pvec)" where
  "getEigenpair E i v_r v_i =
     (if 0 \<le> i \<and> i < int (length (converged E))
      then (case converged E ! nat i of
              (eig, xr, xi) \<Rightarrow> Inr (eig, v_r\<lparr>vals := xr\<rparr>, v_i\<lparr>vals := xi\<rparr>))
      else Inl OutOfRange)"

section \<open>The solver object\<close>

text \<open>
  An \<open>EigenSolver\<close> object: each attribute is absent (\<open>None\<close>) until an assignment binds
  it, and reading an absent attribute raises \<open>AttributeError\<close>. The attribute \<open>comm\<close> is
  only handed to the output drivers and is left out.
\<close>

record solver =
  slepc_options :: "pyopts option"
  V :: "(int \<times> int) option"
  bcs :: "pyval list option"
  K :: "pmat option"
  M :: "pmat option"
  index_set_not_bc :: "int list option"
  projector :: "scatter_ctx option"
  E :: "eps option"
  nev :: "int option"
  nconv :: "nat option"

definition new_object :: solver where
  "new_object = \<lparr>slepc_options = None, V = None, bcs = None, K = None, M = None,
     index_set_not_bc = None, projector = None, E = None, nev = None, nconv = None\<rparr>"

definition attr :: "'a option \<Rightarrow> error + 'a" where
  "attr a = (case a of None \<Rightarrow> Inl AttributeError | Some x \<Rightarrow> Inr x)"

text \<open>Truth value of the \<open>option_prefix\<close> argument: \<open>None\<close> and the empty string are false.\<close>

fun truthy :: "string option \<Rightarrow> bool" where
  "truthy None = False"
| "truthy (Some s) = (s \<noteq> [])"

text \<open>The constructor's \<open>if type(bcs) == list: self.bcs = bcs else: self.bcs = [bcs]\<close>.\<close>

fun as_bc_list :: "pyval \<Rightarrow> pyval list" where
  "as_bc_list (PyList xs) = xs"
| "as_bc_list PyNone = [PyNone]"
| "as_bc_list (DirichletBC d) = [DirichletBC d]"

text \<open>
  \<open>__init__\<close>. The forms \<open>a_k\<close> and \<open>a_m\<close> are given by the matrices their assembly
  returns, \<open>u\<close> by its function space (the constructor reads \<open>u.function_space()\<close> and the
  layout of \<open>u.vector().vec()\<close>, which is that of the space). The argument
  \<open>slepc_options\<close> is \<open>None\<close> here when the call omits it, and the parameter is then bound
  to the default dictionary object; the constructor stores the reference, not a copy. An
  engine object passed as \<open>slepc_eigensolver\<close> is true, \<open>None\<close> is false.
\<close>

definition init ::
  "pmat \<Rightarrow> pmat \<Rightarrow> int \<times> int \<Rightarrow> pyval \<Rightarrow> pyopts option \<Rightarrow> string option
     \<Rightarrow> eps option \<Rightarrow> error + solver" where
  "init a_k a_m u bcs_arg slepc_options_arg option_prefix slepc_eigensolver =
     (let self = new_object\<lparr>slepc_options :=
            Some (case slepc_options_arg of
                    None \<Rightarrow> OptionsDict default_slepc_options
                  | Some d \<Rightarrow> d)\<rparr>
      in
      bindE (if truthy option_prefix
             then bindE (attr (E self)) (\<lambda>e. Inr (self\<lparr>E := Some (e\<lparr>options_prefix := option_prefix\<rparr>)\<rparr>))
             else Inr self) (\<lambda>self.
      let self = self\<lparr>V := Some u\<rparr>;
          self = self\<lparr>bcs := Some (as_bc_list bcs_arg)\<rparr>;
          self = self\<lparr>K := Some a_k\<rparr>;
          self = self\<lparr>M := Some a_m\<rparr>
      in
      bindE (attr (bcs self)) (\<lambda>bl.
      bindE (if bl \<noteq> []
             then
               bindE (attr (V self)) (\<lambda>fs.
               bindE (get_interior_index_set bl fs) (\<lambda>ix.
               let self = self\<lparr>index_set_not_bc := Some ix\<rparr> in
               bindE (attr (K self)) (\<lambda>k0.
               bindE (createSubMatrix k0 ix ix) (\<lambda>k1.
               let self = self\<lparr>K := Some k1\<rparr> in
               bindE (attr (M self)) (\<lambda>m0.
               bindE (createSubMatrix m0 ix ix) (\<lambda>m1.
               let self = self\<lparr>M := Some m1\<rparr> in
               bindE (Scatter_create (createVecRight k1) (zero_function u) ix) (\<lambda>P.
               Inr (self\<lparr>projector := Some P\<rparr>))))))))
             else Inr self) (\<lambda>self.
      let self = self\<lparr>E := Some (case slepc_eigensolver of
                                    Some e \<Rightarrow> e
                                  | None \<Rightarrow> eigensolver_setup)\<rparr>
      in
      bindE (attr (E self)) (\<lambda>e.
      bindE (attr (K self)) (\<lambda>k.
      bindE (attr (M self)) (\<lambda>m.
      Inr (self\<lparr>E := Some (e\<lparr>operators := Some (k, m)\<rparr>)\<rparr>))))))))"

text \<open>
  \<open>set_options\<close>: the loop over the items the dictionary holds at the time of the call
  (\<open>None\<close> has no \<open>items\<close>), then \<open>setFromOptions\<close>.
\<close>

fun set_each :: "(string \<times> optval) list \<Rightarrow> world \<Rightarrow> world" where
  "set_each [] w = w"
| "set_each ((opt, v) # rest) w = set_each rest (PETScOptions_set opt v w)"

definition set_options :: "solver \<Rightarrow> pyopts \<Rightarrow> world \<Rightarrow> error + solver \<times> world" where
  "set_options self opts w =
     (case opts of
        OptionsNone \<Rightarrow> Inl AttributeError
      | OptionsDict d \<Rightarrow>
          (let w = set_each (dicts w d) w in
           bindE (attr (E self)) (\<lambda>e.
           Inr (self\<lparr>E := Some (setFromOptions e w)\<rparr>, w))))"

text \<open>
  \<open>solve\<close>: the result is the returned pair \<open>(nconv, its)\<close>, the object and the world.
  The third argument is the engine's iteration: the outcome it computes for an engine.
\<close>

definition solve ::
  "solver \<Rightarrow> int \<Rightarrow> (eps \<Rightarrow> error + ((complex \<times> real list \<times> real list) list \<times> nat)) \<Rightarrow> world
     \<Rightarrow> error + ((nat \<times> nat) \<times> solver \<times> world)" where
  "solve self n_eig iterate w =
     bindE (attr (E self)) (\<lambda>e.
     let self = self\<lparr>E := Some (e\<lparr>dimensions := n_eig\<rparr>)\<rparr> in
     bindE (attr (slepc_options self)) (\<lambda>opts.
     bindE (set_options self opts w) (\<lambda>(self, w).
     bindE (attr (E self)) (\<lambda>e.
     bindE (eps_solve (setFromOptions e w) iterate) (\<lambda>e.
     let its = iteration_number e;
         self = self\<lparr>E := Some e\<rparr>;
         self = self\<lparr>nev := Some (dimensions e)\<rparr>;
         self = self\<lparr>nconv := Some (length (converged e))\<rparr>
     in
     bindE (attr (nconv self)) (\<lambda>n.
     Inr ((n, its), self, w)))))))"

text \<open>
  \<open>get_eigenpair\<close>: the result is the eigenvalue, the addresses of the two new functions
  and the world after the call.
\<close>

definition get_eigenpair :: "solver \<Rightarrow> int \<Rightarrow> world \<Rightarrow> error + ((complex \<times> nat \<times> nat) \<times> world)" where
  "get_eigenpair self i w =
     bindE (attr (V self)) (\<lambda>fs.
     case Function fs w of (u_r, w) \<Rightarrow>
     case Function fs w of (u_im, w) \<Rightarrow>
     bindE (attr (K self)) (\<lambda>k.
     case createVecs k of (v_r, v_i) \<Rightarrow>
     bindE (attr (E self)) (\<lambda>e.
     bindE (getEigenpair e i v_r v_i) (\<lambda>(eig, v_r, v_i).
     bindE (attr (bcs self)) (\<lambda>bl.
     if bl \<noteq> []
     then
       bindE (attr (projector self)) (\<lambda>P.
       bindE (scatter P v_r (heap w ! u_r)) (\<lambda>d.
       let w = w\<lparr>heap := (heap w)[u_r := d]\<rparr> in
       bindE (scatter P v_i (heap w ! u_im)) (\<lambda>d.
       let w = w\<lparr>heap := (heap w)[u_im := d]\<rparr> in
       Inr ((eig, u_r, u_im), w))))
     else Inr ((eig, u_r, u_im), w))))))"

section \<open>A small problem\<close>

text \<open>
  Three DOFs on one process, DOF \<open>0\<close> fixed by a boundary condition, and the objects
  the constructor builds for it; used to run the theorems on a concrete input.
\<close>

definition example_K :: pmat where
  "example_K = \<lparr>mstart = 0, mrows = [[2, -1, 0], [-1, 2, -1], [0, -1, 2]]\<rparr>"

definition example_M :: pmat where
  "example_M = \<lparr>mstart = 0, mrows = [[4, 1, 0], [1, 4, 1], [0, 1, 4]]\<rparr>"

definition example_projector :: scatter_ctx where
  "example_projector = \<lparr>from_size = 2, to_start = 0, to_size = 3, is_to = [1, 2]\<rparr>"

text \<open>An iteration whose outcome is the same for every configuration of the engine.\<close>

definition engine_returns ::
  "(complex \<times> real list \<times> real list) list \<Rightarrow> nat
     \<Rightarrow> eps \<Rightarrow> error + ((complex \<times> real list \<times> real list) list \<times> nat)" where
  "engine_returns pairs its e = Inr (pairs, its)"


definition example_engine :: eps where
  "example_engine =
     eigensolver_setup\<lparr>operators :=
        Some (\<lparr>mstart = 0, mrows = [[2, -1], [-1, 2]]\<rparr>,
              \<lparr>mstart = 0, mrows = [[4, 1], [1, 4]]\<rparr>)\<rparr>"

definition example_solver :: solver where
  "example_solver =
     \<lparr>slepc_options = Some (OptionsDict default_slepc_options), V = Some (0, 3),
      bcs = Some [DirichletBC [(0, 0)]],
      K = Some \<lparr>mstart = 0, mrows = [[2, -1], [-1, 2]]\<rparr>,
      M = Some \<lparr>mstart = 0, mrows = [[4, 1], [1, 4]]\<rparr>,
      index_set_not_bc = Some [1, 2], projector = Some example_projector,
      E = Some example_engine, nev = None, nconv = None\<rparr>"

definition example_world :: world where
  "example_world = set_each [(''eps_max_it'', IntVal 100)] initial_world"

text \<open>The object after \<open>solve(1)\<close> on it, for an outcome of the engine's iteration.\<close>

definition example_solved :: "(complex \<times> real list \<times> real list) list \<Rightarrow> nat \<Rightarrow> solver" where
  "example_solved pairs its =
     example_solver\<lparr>E := Some ((setFromOptions (example_engine\<lparr>dimensions := 1\<rparr>) example_world)
                                 \<lparr>converged := pairs, iteration_number := its\<rparr>),
                    nev := Some 1, nconv := Some (length pairs)\<rparr>"

text \<open>
  The same problem without boundary conditions (the empty list), after \<open>solve(1)\<close> with
  one converged eigenpair; and the problem with boundary condition and a caller's options
  mapping \<open>{'eps_tol': 5}\<close> (the dictionary at address \<open>1\<close>), which has no entry
  \<open>eps_max_it\<close>, after a solve without converged eigenpair.
\<close>

definition example_unconstrained :: solver where
  "example_unconstrained =
     \<lparr>slepc_options = Some (OptionsDict default_slepc_options), V = Some (0, 3), bcs = Some [],
      K = Some example_K, M = Some example_M, index_set_not_bc = None, projector = None,
      E = Some (eigensolver_setup\<lparr>operators := Some (example_K, example_M)\<rparr>),
      nev = None, nconv = None\<rparr>"

definition example_unconstrained_solved :: solver where
  "example_unconstrained_solved =
     example_unconstrained
       \<lparr>E := Some ((setFromOptions
                      (eigensolver_setup\<lparr>operators := Some (example_K, example_M), dimensions := 1\<rparr>)
                      example_world)
                    \<lparr>converged := [(2, [1, 2, 3], [0, 0, 0])], iteration_number := 3\<rparr>),
        nev := Some 1, nconv := Some 1\<rparr>"






section \<open>Properties of the selector\<close>

lemma bindE_simps:
  "bindE (Inl e) f = Inl e"
  "bindE (Inr x) f = f x"
  by (simp_all add: bindE_def)

lemma extend_bc_dofs_all_bc:
  "list_all is_bc B \<Longrightarrow>
     \<exists>ks. extend_bc_dofs acc B = Inr ks \<and> set ks = set acc \<union> constrained B"
proof (induction B arbitrary: acc)
  case Nil
  then show ?case by (simp add: constrained_def)
next
  case (Cons b B)
  then obtain d where b: "b = DirichletBC d"
    by (cases b) auto
  from Cons.prems have "list_all is_bc B" by simp
  from Cons.IH [OF this, of "acc @ map fst d"]
  obtain ks where "extend_bc_dofs (acc @ map fst d) B = Inr ks"
    and "set ks = set (acc @ map fst d) \<union> constrained B"
    by blast
  then show ?case
    using b by (auto simp: constrained_def)
qed

lemma interior_of_bcs:
  assumes "list_all is_bc B"
  shows "get_interior_index_set B (lo, hi) = Inr [x \<leftarrow> [lo .. hi - 1]. x \<notin> constrained B]"
proof -
  from extend_bc_dofs_all_bc [OF assms, of "[]"]
  obtain ks where "extend_bc_dofs [] B = Inr ks" and "set ks = constrained B"
    by auto
  then show ?thesis
    by (simp add: get_interior_index_set_def)
qed

lemma card_upto_int: "lo \<le> hi \<Longrightarrow> int (card {lo ..< hi}) = hi - (lo::int)"
  by simp

lemma interior_length:
  assumes "lo \<le> hi"
  shows "int (length [x \<leftarrow> [lo .. hi - 1]. x \<notin> C]) + int (card (C \<inter> {lo ..< hi})) = hi - lo"
proof -
  let ?I = "{lo ..< hi} - C"
  have d: "distinct [x \<leftarrow> [lo .. hi - 1]. x \<notin> C]"
    by simp
  have s: "set [x \<leftarrow> [lo .. hi - 1]. x \<notin> C] = ?I"
    by auto
  have len: "length [x \<leftarrow> [lo .. hi - 1]. x \<notin> C] = card ?I"
    using distinct_card [OF d] s by simp
  have un: "?I \<union> (C \<inter> {lo ..< hi}) = {lo ..< hi}"
    by auto
  have dj: "?I \<inter> (C \<inter> {lo ..< hi}) = {}"
    by auto
  have f1: "finite ?I" and f2: "finite (C \<inter> {lo ..< hi})"
    by simp_all
  have "card (?I \<union> (C \<inter> {lo ..< hi})) = card ?I + card (C \<inter> {lo ..< hi})"
    by (rule card_Un_disjoint [OF f1 f2 dj])
  then have "card ?I + card (C \<inter> {lo ..< hi}) = card {lo ..< hi}"
    by (simp only: un)
  then have "int (card ?I) + int (card (C \<inter> {lo ..< hi})) = int (card {lo ..< hi})"
    by (simp only: of_nat_add [symmetric])
  also have "\<dots> = hi - lo"
    by (rule card_upto_int [OF assms])
  finally show ?thesis
    by (simp only: len)
qed

text \<open>
  Claim C2. For every sequence \<open>B\<close> of boundary condition objects and every ownership
  range \<open>[lo, hi)\<close>, the selector returns the strictly ascending sequence of exactly the
  indices of \<open>[lo, hi)\<close> that are in no key set; the interior set and the constrained set
  are disjoint, together they cover \<open>[lo, hi)\<close>, and their sizes add up to \<open>hi - lo\<close>.
\<close>

theorem interior_selector_partition:
  assumes "list_all is_bc B" and "lo \<le> hi"
  shows "\<exists>interior. get_interior_index_set B (lo, hi) = Inr interior
           \<and> sorted_wrt (<) interior
           \<and> distinct interior
           \<and> set interior = {x. lo \<le> x \<and> x < hi \<and> x \<notin> constrained B}
           \<and> set interior \<inter> constrained B = {}
           \<and> set interior \<union> (constrained B \<inter> {lo ..< hi}) = {lo ..< hi}
           \<and> int (length interior) + int (card (constrained B \<inter> {lo ..< hi})) = hi - lo"
proof -
  let ?I = "[x \<leftarrow> [lo .. hi - 1]. x \<notin> constrained B]"
  have r: "get_interior_index_set B (lo, hi) = Inr ?I"
    by (rule interior_of_bcs [OF assms(1)])
  have d: "distinct ?I" by simp
  have "sorted ?I" by (simp add: sorted_wrt_filter)
  with d have a: "sorted_wrt (<) ?I"
    by (simp add: strict_sorted_iff)
  have s: "set ?I = {x. lo \<le> x \<and> x < hi \<and> x \<notin> constrained B}"
    by auto
  have i: "set ?I \<inter> constrained B = {}"
    by auto
  have u: "set ?I \<union> (constrained B \<inter> {lo ..< hi}) = {lo ..< hi}"
    by auto
  have c: "int (length ?I) + int (card (constrained B \<inter> {lo ..< hi})) = hi - lo"
    by (rule interior_length [OF assms(2)])
  from r a d s i u c show ?thesis by blast
qed

theorem interior_selector_partition_witness:
  "get_interior_index_set
      [DirichletBC [(0, 0), (4, 0)], DirichletBC [(4, 0), (2, 0)]] (0, 5) = Inr [1, 3]
   \<and> (\<exists>interior. get_interior_index_set
          [DirichletBC [(0, 0), (4, 0)], DirichletBC [(4, 0), (2, 0)]] (0, 5) = Inr interior
        \<and> int (length interior)
          + int (card (constrained [DirichletBC [(0, 0), (4, 0)], DirichletBC [(4, 0), (2, 0)]]
                        \<inter> {0 ..< 5})) = 5 - 0)"
proof -
  have e: "get_interior_index_set
      [DirichletBC [(0, 0), (4, 0)], DirichletBC [(4, 0), (2, 0)]] (0, 5) = Inr [1, 3]"
    by (simp add: get_interior_index_set_def upto.simps)
  have b: "list_all is_bc [DirichletBC [(0, 0), (4, 0)], DirichletBC [(4, 0), (2, 0)]]"
    by simp
  have l: "(0::int) \<le> 5" by simp
  from interior_selector_partition [OF b l] e show ?thesis
    by blast
qed

section \<open>The scatter, the constructor and the methods\<close>

lemma insert_values_length: "length (insert_values s zs d) = length d"
  by (induction zs arbitrary: d) auto

lemma insert_values_other:
  "p \<notin> set (map (\<lambda>z. nat (fst z - s)) zs) \<Longrightarrow> insert_values s zs d ! p = d ! p"
  by (induction zs arbitrary: d) auto

lemma insert_values_hit:
  assumes "distinct (map (\<lambda>z. nat (fst z - s)) zs)"
    and "list_all (\<lambda>z. nat (fst z - s) < length d) zs"
    and "i < length zs"
  shows "insert_values s zs d ! nat (fst (zs ! i) - s) = snd (zs ! i)"
  using assms
proof (induction zs arbitrary: d i)
  case Nil
  then show ?case by simp
next
  case (Cons z zs)
  obtain g x where z: "z = (g, x)" by (cases z)
  let ?p = "nat (g - s)"
  from Cons.prems(2) z have p: "?p < length d" by simp
  show ?case
  proof (cases i)
    case 0
    from Cons.prems(1) z have "?p \<notin> set (map (\<lambda>z. nat (fst z - s)) zs)" by simp
    then have "insert_values s zs (d[?p := x]) ! ?p = d[?p := x] ! ?p"
      by (rule insert_values_other)
    with p 0 z show ?thesis by simp
  next
    case (Suc j)
    from Cons.prems(1) have d': "distinct (map (\<lambda>z. nat (fst z - s)) zs)" by simp
    from Cons.prems(2) have a': "list_all (\<lambda>z. nat (fst z - s) < length (d[?p := x])) zs"
      by simp
    from Cons.prems(3) Suc have j: "j < length zs" by simp
    from Cons.IH [OF d' a' j] Suc z show ?thesis by simp
  qed
qed

lemma positions_distinct:
  assumes "distinct ix" and "list_all (in_layout s n) ix" and "length xs = length ix"
  shows "distinct (map (\<lambda>z. nat (fst z - s)) (zip ix xs))"
proof -
  have inj: "inj_on (\<lambda>g. nat (g - s)) (set ix)"
  proof (rule inj_onI)
    fix x y
    assume x: "x \<in> set ix" and y: "y \<in> set ix" and e: "nat (x - s) = nat (y - s)"
    from assms(2) x y have "s \<le> x" and "s \<le> y"
      by (auto simp: list_all_iff in_layout_def)
    with e show "x = y" by arith
  qed
  have "map (\<lambda>z. nat (fst z - s)) (zip ix xs) = map (\<lambda>g. nat (g - s)) (map fst (zip ix xs))"
    by simp
  also have "\<dots> = map (\<lambda>g. nat (g - s)) ix"
    using assms(3) by (simp only: map_fst_zip)
  finally show ?thesis
    using assms(1) inj by (simp add: distinct_map)
qed

lemma positions_in_range:
  assumes "list_all (in_layout s (length d)) ix"
  shows "list_all (\<lambda>z. nat (fst z - s) < length d) (zip ix xs)"
  using assms
  by (auto simp: list_all_iff in_layout_def dest!: set_zip_leftD)

lemma scatter_values:
  assumes "distinct ix" and "list_all (in_layout s (length d)) ix" and "length xs = length ix"
  shows "length (insert_values s (zip ix xs) d) = length d"
    and "\<And>i. i < length ix \<Longrightarrow> insert_values s (zip ix xs) d ! nat (ix ! i - s) = xs ! i"
    and "\<And>g. g \<notin> set ix \<Longrightarrow> in_layout s (length d) g \<Longrightarrow>
           insert_values s (zip ix xs) d ! nat (g - s) = d ! nat (g - s)"
proof -
  show "length (insert_values s (zip ix xs) d) = length d"
    by (rule insert_values_length)
next
  fix i assume i: "i < length ix"
  then have iz: "i < length (zip ix xs)" using assms(3) by simp
  from insert_values_hit [OF positions_distinct [OF assms(1,2,3)] positions_in_range [OF assms(2)] iz]
  show "insert_values s (zip ix xs) d ! nat (ix ! i - s) = xs ! i"
    using i assms(3) by simp
next
  fix g assume g: "g \<notin> set ix" and l: "in_layout s (length d) g"
  have "nat (g - s) \<notin> set (map (\<lambda>z. nat (fst z - s)) (zip ix xs))"
  proof
    assume "nat (g - s) \<in> set (map (\<lambda>z. nat (fst z - s)) (zip ix xs))"
    then obtain z where z: "z \<in> set (zip ix xs)" and e: "nat (g - s) = nat (fst z - s)"
      by auto
    have m: "fst z \<in> set ix"
      using z by (metis prod.collapse set_zip_leftD)
    with assms(2) have "s \<le> fst z" by (auto simp: list_all_iff in_layout_def)
    moreover from l have "s \<le> g" by (simp add: in_layout_def)
    ultimately have "g = fst z" using e by arith
    with m g show False by simp
  qed
  then show "insert_values s (zip ix xs) d ! nat (g - s) = d ! nat (g - s)"
    by (rule insert_values_other)
qed

lemma init_truthy_prefix:
  "truthy pre \<Longrightarrow> init a_k a_m u bcs_arg opts pre eng = Inl AttributeError"
  by (simp add: init_def new_object_def attr_def bindE_def)

lemma init_empty_list:
  "\<not> truthy pre \<Longrightarrow>
   init a_k a_m u (PyList []) opts pre eng =
     Inr \<lparr>slepc_options = Some (case opts of None \<Rightarrow> OptionsDict default_slepc_options | Some d \<Rightarrow> d),
          V = Some u, bcs = Some [], K = Some a_k, M = Some a_m,
          index_set_not_bc = None, projector = None,
          E = Some ((case eng of Some e \<Rightarrow> e | None \<Rightarrow> eigensolver_setup)\<lparr>operators := Some (a_k, a_m)\<rparr>),
          nev = None, nconv = None\<rparr>"
  by (simp add: init_def new_object_def attr_def bindE_def)

lemma init_constrained:
  assumes "init a_k a_m u bcs_arg opts pre eng = Inr self" and "as_bc_list bcs_arg \<noteq> []"
  shows "\<exists>ix k1 m1 P.
           get_interior_index_set (as_bc_list bcs_arg) u = Inr ix
         \<and> createSubMatrix a_k ix ix = Inr k1
         \<and> createSubMatrix a_m ix ix = Inr m1
         \<and> Scatter_create (createVecRight k1) (zero_function u) ix = Inr P
         \<and> self = \<lparr>slepc_options = Some (case opts of None \<Rightarrow> OptionsDict default_slepc_options | Some d \<Rightarrow> d),
              V = Some u, bcs = Some (as_bc_list bcs_arg), K = Some k1, M = Some m1,
              index_set_not_bc = Some ix, projector = Some P,
              E = Some ((case eng of Some e \<Rightarrow> e | None \<Rightarrow> eigensolver_setup)\<lparr>operators := Some (k1, m1)\<rparr>),
              nev = None, nconv = None\<rparr>"
proof -
  from assms(1) have np: "\<not> truthy pre"
    using init_truthy_prefix [of pre a_k a_m u bcs_arg opts eng] by auto
  show ?thesis
    using assms np
    by (auto simp: init_def new_object_def attr_def bindE_def Let_def split: sum.splits)
qed


lemma interior_distinct:
  "get_interior_index_set bl u = Inr ix \<Longrightarrow> distinct ix"
  by (auto simp: get_interior_index_set_def split: sum.splits)

lemma Scatter_create_Inr:
  assumes "Scatter_create vf vt ix = Inr P"
  shows "length ix = length (vals vf)"
    and "list_all (in_layout (vstart vt) (length (vals vt))) ix"
    and "P = \<lparr>from_size = length (vals vf), to_start = vstart vt,
               to_size = length (vals vt), is_to = ix\<rparr>"
  using assms by (auto simp: Scatter_create_def split: if_splits)

lemma scatter_ok:
  assumes c: "Scatter_create vf vt ix = Inr P" and d: "distinct ix"
    and v: "length (vals v) = from_size P"
    and s: "vstart dest = to_start P" and n: "length (vals dest) = to_size P"
  shows "\<exists>d. scatter P v dest = Inr d
           \<and> vstart d = vstart dest \<and> length (vals d) = length (vals dest)
           \<and> (\<forall>i<length ix. value_at d (ix ! i) = vals v ! i)
           \<and> (\<forall>g. in_layout (vstart dest) (length (vals dest)) g \<and> g \<notin> set ix
                  \<longrightarrow> value_at d g = value_at dest g)"
proof -
  note P = Scatter_create_Inr [OF c]
  let ?d = "dest\<lparr>vals := insert_values (vstart dest) (zip ix (vals v)) (vals dest)\<rparr>"
  from P(3) s n have lay: "vstart vt = vstart dest" "length (vals vt) = length (vals dest)"
    by simp_all
  from P(2) lay have r: "list_all (in_layout (vstart dest) (length (vals dest))) ix"
    by simp
  from P(1,3) v have l: "length (vals v) = length ix"
    by simp
  have e: "scatter P v dest = Inr ?d"
    using P(3) v s n by (simp add: scatter_def)
  have "vstart ?d = vstart dest" by simp
  moreover have "length (vals ?d) = length (vals dest)"
    by (simp add: insert_values_length)
  moreover have "\<forall>i<length ix. value_at ?d (ix ! i) = vals v ! i"
    using scatter_values(2) [OF d r l] by (simp add: value_at_def)
  moreover have "\<forall>g. in_layout (vstart dest) (length (vals dest)) g \<and> g \<notin> set ix
                  \<longrightarrow> value_at ?d g = value_at dest g"
    using scatter_values(3) [OF d r l] by (simp add: value_at_def)
  ultimately show ?thesis using e by blast
qed

lemma extract_at_scattered:
  assumes "\<forall>i<length ix. value_at d (ix ! i) = xs ! i" and "length xs = length ix"
  shows "extract_at ix d = xs"
  using assms by (auto simp: extract_at_def intro: nth_equalityI)

lemma get_eigenpair_constrained:
  assumes "V self = Some u" and "K self = Some k" and "E self = Some e"
    and "bcs self = Some bl" and "bl \<noteq> []" and "projector self = Some P"
  shows "get_eigenpair self i w =
     (case getEigenpair e i (fst (createVecs k)) (snd (createVecs k)) of
        Inl x \<Rightarrow> Inl x
      | Inr (eig, xr, xi) \<Rightarrow>
          (case scatter P xr (zero_function u) of
             Inl x \<Rightarrow> Inl x
           | Inr d \<Rightarrow>
               (case scatter P xi (zero_function u) of
                  Inl x \<Rightarrow> Inl x
                | Inr d' \<Rightarrow>
                    Inr ((eig, length (heap w), Suc (length (heap w))),
                         w\<lparr>heap := heap w @ [d, d']\<rparr>))))"
  using assms
  by (simp add: get_eigenpair_def attr_def bindE_def Function_def Let_def nth_append
      list_update_append split: sum.splits prod.splits)

lemma get_eigenpair_unconstrained:
  assumes "V self = Some u" and "K self = Some k" and "E self = Some e"
    and "bcs self = Some []"
  shows "get_eigenpair self i w =
     (case getEigenpair e i (fst (createVecs k)) (snd (createVecs k)) of
        Inl x \<Rightarrow> Inl x
      | Inr (eig, xr, xi) \<Rightarrow>
          Inr ((eig, length (heap w), Suc (length (heap w))),
               w\<lparr>heap := heap w @ [zero_function u, zero_function u]\<rparr>))"
  using assms
  by (simp add: get_eigenpair_def attr_def bindE_def Function_def Let_def
      split: sum.splits prod.splits)

lemma solve_result:
  assumes "E self = Some e" and "slepc_options self = Some (OptionsDict d)"
  shows "solve self n iterate w =
     (case iterate (setFromOptions (e\<lparr>dimensions := n\<rparr>) (set_each (dicts w d) w)) of
        Inl x \<Rightarrow> Inl x
      | Inr (pairs, its) \<Rightarrow>
          Inr ((length pairs, its),
               self\<lparr>E := Some ((setFromOptions (e\<lparr>dimensions := n\<rparr>) (set_each (dicts w d) w))
                                 \<lparr>converged := pairs, iteration_number := its\<rparr>),
                    nev := Some n, nconv := Some (length pairs)\<rparr>,
               set_each (dicts w d) w))"
  using assms
  by (simp add: solve_def set_options_def eps_solve_def setFromOptions_def attr_def bindE_def
      Let_def split: sum.splits prod.splits)

lemma solve_options_none:
  assumes "E self = Some e" and "slepc_options self = Some OptionsNone"
  shows "solve self n iterate w = Inl AttributeError"
  using assms
  by (simp add: solve_def set_options_def attr_def bindE_def Let_def)

lemma solve_Inr:
  assumes "E self0 = Some e" and "slepc_options self0 = Some ov"
    and "solve self0 n iterate w0 = Inr (r, self, w1)"
  obtains d pairs its where "ov = OptionsDict d"
    and "iterate (setFromOptions (e\<lparr>dimensions := n\<rparr>) (set_each (dicts w0 d) w0))
           = Inr (pairs, its)"
    and "r = (length pairs, its)"
    and "self = self0\<lparr>E := Some ((setFromOptions (e\<lparr>dimensions := n\<rparr>) (set_each (dicts w0 d) w0))
                                   \<lparr>converged := pairs, iteration_number := its\<rparr>),
                      nev := Some n, nconv := Some (length pairs)\<rparr>"
    and "w1 = set_each (dicts w0 d) w0"
proof (cases ov)
  case OptionsNone
  with assms show ?thesis
    by (simp add: solve_options_none)
next
  case (OptionsDict d)
  with assms(2) have o: "slepc_options self0 = Some (OptionsDict d)"
    by simp
  let ?e = "setFromOptions (e\<lparr>dimensions := n\<rparr>) (set_each (dicts w0 d) w0)"
  show ?thesis
  proof (cases "iterate ?e")
    case (Inl x)
    with assms(3) show ?thesis
      unfolding solve_result [OF assms(1) o] by simp
  next
    case (Inr t)
    obtain pairs its where t: "t = (pairs, its)" by (cases t)
    from assms(3) Inr t
    have "r = (length pairs, its)"
      and "self = self0\<lparr>E := Some (?e\<lparr>converged := pairs, iteration_number := its\<rparr>),
                        nev := Some n, nconv := Some (length pairs)\<rparr>"
      and "w1 = set_each (dicts w0 d) w0"
      unfolding solve_result [OF assms(1) o] by auto
    with OptionsDict Inr t show ?thesis
      by (simp add: that)
  qed
qed

lemma example_interior:
  "get_interior_index_set [DirichletBC [(0, 0)]] (0, 3) = Inr [1, 2]"
  by (simp add: get_interior_index_set_def upto.simps)

lemma example_K_reduced:
  "createSubMatrix example_K [1, 2] [1, 2] = Inr \<lparr>mstart = 0, mrows = [[2, -1], [-1, 2]]\<rparr>"
  by (simp add: createSubMatrix_def in_layout_def example_K_def)

lemma example_M_reduced:
  "createSubMatrix example_M [1, 2] [1, 2] = Inr \<lparr>mstart = 0, mrows = [[4, 1], [1, 4]]\<rparr>"
  by (simp add: createSubMatrix_def in_layout_def example_M_def)

lemma example_init:
  "init example_K example_M (0, 3) (PyList [DirichletBC [(0, 0)]]) None None None
     = Inr example_solver"
  by (simp add: init_def new_object_def attr_def bindE_def Let_def example_interior
      example_K_reduced example_M_reduced in_layout_def Scatter_create_def createVecRight_def
      ncols_def zero_function_def example_solver_def example_projector_def example_engine_def)

text \<open>
  Claim C1. In an object the constructor has built with boundary conditions, for every
  reduced-space vector \<open>v\<close> of the configured reduced length (the size of the interior
  index set) and every full-space destination of the configured layout, the projector's
  scatter succeeds, copies \<open>v[i]\<close> to destination position \<open>interior[i]\<close> for every \<open>i\<close>
  and leaves every position outside the interior index set as it was; scattering \<open>v\<close>
  into a zero-initialised full-space vector and reading the interior positions back gives
  \<open>v\<close>.
\<close>

theorem scatter_into_interior:
  assumes "init a_k a_m u bcs_arg opts pre eng = Inr self"
    and "index_set_not_bc self = Some interior" and "projector self = Some P"
    and "length (vals v) = from_size P"
    and "vstart dest = to_start P" and "length (vals dest) = to_size P"
  shows "from_size P = length interior
       \<and> (\<exists>d. scatter P v dest = Inr d
            \<and> vstart d = vstart dest \<and> length (vals d) = length (vals dest)
            \<and> (\<forall>i<length interior. value_at d (interior ! i) = vals v ! i)
            \<and> (\<forall>g. in_layout (vstart dest) (length (vals dest)) g \<and> g \<notin> set interior
                   \<longrightarrow> value_at d g = value_at dest g))
       \<and> (\<exists>d. scatter P v (zero_function u) = Inr d \<and> extract_at interior d = vals v)"
proof -
  have ne: "as_bc_list bcs_arg \<noteq> []"
  proof
    assume e: "as_bc_list bcs_arg = []"
    then have b: "bcs_arg = PyList []" by (cases bcs_arg) auto
    from assms(1) have "\<not> truthy pre"
      using init_truthy_prefix [of pre a_k a_m u bcs_arg opts eng] by auto
    from init_empty_list [OF this, of a_k a_m u opts eng] assms(1) b
    have "index_set_not_bc self = None" by auto
    with assms(2) show False by simp
  qed
  from init_constrained [OF assms(1) ne] assms(2,3)
  obtain k1 where ix: "get_interior_index_set (as_bc_list bcs_arg) u = Inr interior"
    and sc: "Scatter_create (createVecRight k1) (zero_function u) interior = Inr P"
    by auto
  note d = interior_distinct [OF ix]
  note c = Scatter_create_Inr [OF sc]
  from c(1,3) have fs: "from_size P = length interior" by simp
  from c(3) have zs: "vstart (zero_function u) = to_start P"
    and zn: "length (vals (zero_function u)) = to_size P"
    by simp_all
  from scatter_ok [OF sc d assms(4) zs zn]
  obtain d0 where d0: "scatter P v (zero_function u) = Inr d0"
    and h0: "\<forall>i<length interior. value_at d0 (interior ! i) = vals v ! i"
    by blast
  from assms(4) fs have "length (vals v) = length interior" by simp
  from extract_at_scattered [OF h0 this] d0
  have z: "\<exists>d. scatter P v (zero_function u) = Inr d \<and> extract_at interior d = vals v"
    by blast
  from fs scatter_ok [OF sc d assms(4,5,6)] z show ?thesis
    by blast
qed

theorem scatter_into_interior_witness:
  "init example_K example_M (0, 3) (PyList [DirichletBC [(0, 0)]]) None None None
     = Inr example_solver
   \<and> scatter example_projector \<lparr>vstart = 0, vals = [5, 7]\<rparr> \<lparr>vstart = 0, vals = [9, 9, 9]\<rparr>
       = Inr \<lparr>vstart = 0, vals = [9, 5, 7]\<rparr>
   \<and> (\<exists>d. scatter example_projector \<lparr>vstart = 0, vals = [5, 7]\<rparr> (zero_function (0, 3)) = Inr d
          \<and> extract_at [1, 2] d = [5, 7])"
proof -
  have i: "index_set_not_bc example_solver = Some [1, 2]"
    and p: "projector example_solver = Some example_projector"
    by (simp_all add: example_solver_def)
  have l: "length (vals \<lparr>vstart = 0, vals = [5, 7]\<rparr>) = from_size example_projector"
    and s: "vstart \<lparr>vstart = 0, vals = [9, 9, 9]\<rparr> = to_start example_projector"
    and n: "length (vals \<lparr>vstart = 0, vals = [9, 9, 9]\<rparr>) = to_size example_projector"
    by (simp_all add: example_projector_def)
  have e: "scatter example_projector \<lparr>vstart = 0, vals = [5, 7]\<rparr> \<lparr>vstart = 0, vals = [9, 9, 9]\<rparr>
       = Inr \<lparr>vstart = 0, vals = [9, 5, 7]\<rparr>"
    by (simp add: scatter_def example_projector_def)
  from scatter_into_interior [OF example_init i p l s n] example_init e show ?thesis
    by simp
qed

lemma createSubMatrix_Inr:
  assumes "createSubMatrix A isrow iscol = Inr B"
  shows "mstart B = 0"
    and "length (mrows B) = length isrow"
    and "list_all (\<lambda>r. length r = length iscol) (mrows B)"
    and "\<forall>i<length isrow. \<forall>j<length iscol.
           mrows B ! i ! j = mrows A ! nat (isrow ! i - mstart A) ! nat (iscol ! j - mstart A)"
  using assms by (auto simp: createSubMatrix_def list_all_iff split: if_splits)

lemma init_index_set_Some:
  assumes "init a_k a_m u bcs_arg opts pre eng = Inr self"
    and "index_set_not_bc self = Some interior"
  shows "as_bc_list bcs_arg \<noteq> []"
proof
  assume e: "as_bc_list bcs_arg = []"
  then have b: "bcs_arg = PyList []" by (cases bcs_arg) auto
  from assms(1) have "\<not> truthy pre"
    using init_truthy_prefix [of pre a_k a_m u bcs_arg opts eng] by auto
  from init_empty_list [OF this, of a_k a_m u opts eng] assms(1) b
  have "index_set_not_bc self = None" by auto
  with assms(2) show False by simp
qed

text \<open>
  Claim C4. In an object constructed with boundary conditions, \<open>K\<close> and \<open>M\<close> are the
  submatrices of the two assembled matrices for one and the same index set, the interior
  index set, as rows and as columns: both are square of dimension \<open>|interior|\<close>, and entry
  \<open>(i, j)\<close> of each is the entry of the full matrix at row \<open>interior[i]\<close> and column
  \<open>interior[j]\<close>.
\<close>

theorem reduced_operators:
  assumes "init a_k a_m u bcs_arg opts pre eng = Inr self"
    and "index_set_not_bc self = Some interior"
  shows "\<exists>k1 m1. K self = Some k1 \<and> M self = Some m1
           \<and> createSubMatrix a_k interior interior = Inr k1
           \<and> createSubMatrix a_m interior interior = Inr m1
           \<and> length (mrows k1) = length interior
           \<and> list_all (\<lambda>r. length r = length interior) (mrows k1)
           \<and> length (mrows m1) = length interior
           \<and> list_all (\<lambda>r. length r = length interior) (mrows m1)
           \<and> (\<forall>i<length interior. \<forall>j<length interior.
                  mrows k1 ! i ! j
                    = mrows a_k ! nat (interior ! i - mstart a_k) ! nat (interior ! j - mstart a_k)
                \<and> mrows m1 ! i ! j
                    = mrows a_m ! nat (interior ! i - mstart a_m) ! nat (interior ! j - mstart a_m))"
proof -
  note ne = init_index_set_Some [OF assms]
  from init_constrained [OF assms(1) ne] assms(2)
  obtain k1 m1 where k: "createSubMatrix a_k interior interior = Inr k1"
    and m: "createSubMatrix a_m interior interior = Inr m1"
    and s: "K self = Some k1" "M self = Some m1"
    by auto
  note ck = createSubMatrix_Inr [OF k]
  note cm = createSubMatrix_Inr [OF m]
  from ck(4) cm(4)
  have e: "\<forall>i<length interior. \<forall>j<length interior.
                  mrows k1 ! i ! j
                    = mrows a_k ! nat (interior ! i - mstart a_k) ! nat (interior ! j - mstart a_k)
                \<and> mrows m1 ! i ! j
                    = mrows a_m ! nat (interior ! i - mstart a_m) ! nat (interior ! j - mstart a_m)"
    by simp
  from s k m ck(2,3) cm(2,3) e show ?thesis
    by blast
qed

theorem reduced_operators_witness:
  "init example_K example_M (0, 3) (PyList [DirichletBC [(0, 0)]]) None None None
     = Inr example_solver
   \<and> K example_solver = Some \<lparr>mstart = 0, mrows = [[2, -1], [-1, 2]]\<rparr>
   \<and> (\<exists>k1 m1. K example_solver = Some k1 \<and> M example_solver = Some m1
         \<and> createSubMatrix example_K [1, 2] [1, 2] = Inr k1
         \<and> createSubMatrix example_M [1, 2] [1, 2] = Inr m1
         \<and> length (mrows k1) = length [1, 2 :: int]
         \<and> length (mrows m1) = length [1, 2 :: int])"
proof -
  have i: "index_set_not_bc example_solver = Some [1, 2]"
    by (simp add: example_solver_def)
  have k: "K example_solver = Some \<lparr>mstart = 0, mrows = [[2, -1], [-1, 2]]\<rparr>"
    by (simp add: example_solver_def)
  from reduced_operators [OF example_init i] obtain k1 m1
    where "K example_solver = Some k1 \<and> M example_solver = Some m1
         \<and> createSubMatrix example_K [1, 2] [1, 2] = Inr k1
         \<and> createSubMatrix example_M [1, 2] [1, 2] = Inr m1
         \<and> length (mrows k1) = length [1, 2 :: int]
         \<and> length (mrows m1) = length [1, 2 :: int]"
    by blast
  with example_init k show ?thesis
    by blast
qed

text \<open>
  Claim C8. With \<open>bcs\<close> left at its default \<open>None\<close>, the constructor wraps it into
  \<open>[None]\<close>, interior DOF selection raises on it and so does the constructor; an object
  without interior index set and projector is constructed exactly when \<open>bcs\<close> is the
  empty list.
\<close>

theorem default_bcs_fails:
  "as_bc_list PyNone = [PyNone]
   \<and> get_interior_index_set (as_bc_list PyNone) u = Inl AttributeError
   \<and> init a_k a_m u PyNone opts None eng = Inl AttributeError
   \<and> ((\<exists>self. init a_k a_m u bcs_arg opts None eng = Inr self
               \<and> index_set_not_bc self = None \<and> projector self = None)
        \<longleftrightarrow> bcs_arg = PyList [])"
proof -
  have a: "get_interior_index_set (as_bc_list PyNone) u = Inl AttributeError"
    by (simp add: get_interior_index_set_def)
  have b: "init a_k a_m u PyNone opts None eng = Inl AttributeError"
    by (simp add: init_def new_object_def attr_def bindE_def Let_def a [simplified])
  have c: "(\<exists>self. init a_k a_m u bcs_arg opts None eng = Inr self
               \<and> index_set_not_bc self = None \<and> projector self = None)
        \<longleftrightarrow> bcs_arg = PyList []"
  proof
    assume "\<exists>self. init a_k a_m u bcs_arg opts None eng = Inr self
               \<and> index_set_not_bc self = None \<and> projector self = None"
    then obtain self where i: "init a_k a_m u bcs_arg opts None eng = Inr self"
      and n: "index_set_not_bc self = None"
      by blast
    have "as_bc_list bcs_arg = []"
    proof (rule ccontr)
      assume "as_bc_list bcs_arg \<noteq> []"
      from init_constrained [OF i this] n show False by auto
    qed
    then show "bcs_arg = PyList []" by (cases bcs_arg) auto
  next
    assume "bcs_arg = PyList []"
    then show "\<exists>self. init a_k a_m u bcs_arg opts None eng = Inr self
               \<and> index_set_not_bc self = None \<and> projector self = None"
      using init_empty_list [of None a_k a_m u opts eng] by simp
  qed
  from a b c show ?thesis by simp
qed

text \<open>
  Claim C9, as amended. With every non-empty \<open>option_prefix\<close> the constructor raises
  \<open>AttributeError\<close>, because it reads the attribute \<open>E\<close> before any statement has bound
  it.
\<close>

theorem option_prefix_raises:
  "init a_k a_m u bcs_arg opts (Some (c # cs)) eng = Inl AttributeError"
proof -
  have t: "truthy (Some (c # cs))"
    by simp
  have a: "attr (E new_object) = Inl AttributeError"
    by (simp add: new_object_def attr_def)
  show ?thesis
    unfolding init_def Let_def using t by (simp add: a bindE_def)
qed

text \<open>
  The empty string is a prefix that is not \<open>None\<close>, and the constructor returns normally
  with it: the test \<open>if option_prefix\<close> is false for it.
\<close>

theorem empty_option_prefix_counterexample:
  "init example_K example_M (0, 3) (PyList [DirichletBC [(0, 0)]]) None (Some []) None
     = Inr example_solver
   \<and> init example_K example_M (0, 3) (PyList [DirichletBC [(0, 0)]]) None (Some []) None
     \<noteq> Inl AttributeError"
proof -
  have "init example_K example_M (0, 3) (PyList [DirichletBC [(0, 0)]]) None (Some []) None
     = Inr example_solver"
    by (simp add: init_def new_object_def attr_def bindE_def Let_def example_interior
      example_K_reduced example_M_reduced in_layout_def Scatter_create_def createVecRight_def
      ncols_def zero_function_def example_solver_def example_projector_def example_engine_def)
  then show ?thesis by simp
qed

lemma extend_bc_dofs_drop_outside:
  assumes "set acc' \<inter> {lo ..< hi} = set acc \<inter> {lo ..< hi}"
  shows "(case extend_bc_dofs acc B of
            Inl e \<Rightarrow> extend_bc_dofs acc' (map (drop_outside lo hi) B) = Inl e \<and> e = AttributeError
          | Inr ks \<Rightarrow>
              (case extend_bc_dofs acc' (map (drop_outside lo hi) B) of
                 Inl e \<Rightarrow> False
               | Inr ks' \<Rightarrow> set ks' \<inter> {lo ..< hi} = set ks \<inter> {lo ..< hi}))"
  using assms
proof (induction B arbitrary: acc acc')
  case Nil
  then show ?case by simp
next
  case (Cons b B)
  show ?case
  proof (cases b)
    case PyNone
    then show ?thesis by simp
  next
    case (PyList xs)
    then show ?thesis by simp
  next
    case (DirichletBC d)
    have "set (acc' @ map fst [kv \<leftarrow> d. lo \<le> fst kv \<and> fst kv < hi]) \<inter> {lo ..< hi}
            = set (acc @ map fst d) \<inter> {lo ..< hi}"
      using Cons.prems by auto
    from Cons.IH [OF this] show ?thesis
      unfolding DirichletBC by (auto split: sum.splits)
  qed
qed

text \<open>
  Claim C7, as amended. Interior DOF selection never raises \<open>ConfigurationConflict\<close>: a
  key of a boundary condition that lies outside the ownership range \<open>[lo, hi)\<close> is
  ignored, and the result is the same as for the boundary conditions with those keys
  removed.
\<close>

theorem out_of_range_keys_ignored:
  "get_interior_index_set (map (drop_outside lo hi) B) (lo, hi) = get_interior_index_set B (lo, hi)
   \<and> get_interior_index_set B (lo, hi) \<noteq> Inl ConfigurationConflict"
proof -
  have "set [] \<inter> {lo ..< hi} = set ([] :: int list) \<inter> {lo ..< hi}" by simp
  note h = extend_bc_dofs_drop_outside [OF this, of B]
  show ?thesis
  proof (cases "extend_bc_dofs [] B")
    case (Inl e)
    with h show ?thesis by (simp add: get_interior_index_set_def)
  next
    case (Inr ks)
    with h obtain ks' where k': "extend_bc_dofs [] (map (drop_outside lo hi) B) = Inr ks'"
      and s: "set ks' \<inter> {lo ..< hi} = set ks \<inter> {lo ..< hi}"
      by (auto split: sum.splits)
    have "[x \<leftarrow> [lo .. hi - 1]. x \<notin> set ks'] = [x \<leftarrow> [lo .. hi - 1]. x \<notin> set ks]"
    proof (rule filter_cong [OF refl])
      fix x assume "x \<in> set [lo .. hi - 1]"
      then have "x \<in> {lo ..< hi}" by simp
      with s show "(x \<notin> set ks') = (x \<notin> set ks)" by blast
    qed
    with Inr k' show ?thesis by (simp add: get_interior_index_set_def)
  qed
qed

text \<open>
  A boundary condition on DOF \<open>7\<close> with ownership range \<open>[0, 3)\<close> is accepted, and the
  whole range is returned as interior.
\<close>

theorem out_of_range_key_counterexample:
  "get_interior_index_set [DirichletBC [(7, 0)]] (0, 3) = Inr [0, 1, 2]"
  by (simp add: get_interior_index_set_def upto.simps)


lemma set_each_heap: "heap (set_each opts w) = heap w"
  by (induction opts w rule: set_each.induct) (auto simp: PETScOptions_set_def)

lemma init_attrs:
  assumes "init a_k a_m u bcs_arg opts pre eng = Inr self"
  shows "slepc_options self
           = Some (case opts of None \<Rightarrow> OptionsDict default_slepc_options | Some d \<Rightarrow> d)"
    and "V self = Some u"
    and "bcs self = Some (as_bc_list bcs_arg)"
    and "\<exists>k m. K self = Some k \<and> M self = Some m
           \<and> E self = Some ((case eng of Some e \<Rightarrow> e | None \<Rightarrow> eigensolver_setup)
                               \<lparr>operators := Some (k, m)\<rparr>)"
    and "as_bc_list bcs_arg \<noteq> [] \<Longrightarrow> \<exists>P. projector self = Some P"
proof -
  from assms have np: "\<not> truthy pre"
    using init_truthy_prefix [of pre a_k a_m u bcs_arg opts eng] by auto
  have "slepc_options self
           = Some (case opts of None \<Rightarrow> OptionsDict default_slepc_options | Some d \<Rightarrow> d)
      \<and> V self = Some u \<and> bcs self = Some (as_bc_list bcs_arg)
      \<and> (\<exists>k m. K self = Some k \<and> M self = Some m
           \<and> E self = Some ((case eng of Some e \<Rightarrow> e | None \<Rightarrow> eigensolver_setup)
                               \<lparr>operators := Some (k, m)\<rparr>))
      \<and> (as_bc_list bcs_arg \<noteq> [] \<longrightarrow> (\<exists>P. projector self = Some P))"
  proof (cases "as_bc_list bcs_arg = []")
    case True
    then have "bcs_arg = PyList []" by (cases bcs_arg) auto
    with init_empty_list [OF np, of a_k a_m u opts eng] assms True show ?thesis
      by auto
  next
    case False
    from init_constrained [OF assms False] show ?thesis
      by auto
  qed
  then show "slepc_options self
           = Some (case opts of None \<Rightarrow> OptionsDict default_slepc_options | Some d \<Rightarrow> d)"
    and "V self = Some u"
    and "bcs self = Some (as_bc_list bcs_arg)"
    and "\<exists>k m. K self = Some k \<and> M self = Some m
           \<and> E self = Some ((case eng of Some e \<Rightarrow> e | None \<Rightarrow> eigensolver_setup)
                               \<lparr>operators := Some (k, m)\<rparr>)"
    and "as_bc_list bcs_arg \<noteq> [] \<Longrightarrow> \<exists>P. projector self = Some P"
    by blast+
qed

lemma get_eigenpair_engine_error:
  assumes "V self = Some u" and "K self = Some k" and "E self = Some e"
    and "getEigenpair e i (fst (createVecs k)) (snd (createVecs k)) = Inl x"
  shows "get_eigenpair self i w = Inl x"
  using assms
  by (cases "createVecs k") (simp add: get_eigenpair_def attr_def bindE_def Function_def)

lemma getEigenpair_beyond:
  "int (length (converged e)) \<le> i \<Longrightarrow> getEigenpair e i v_r v_i = Inl OutOfRange"
  by (simp add: getEigenpair_def)

text \<open>
  Claim C6. After a solve that reports \<open>nconv\<close> converged eigenpairs, \<open>get_eigenpair(i)\<close>
  fails with \<open>OutOfRange\<close> for every \<open>i \<ge> nconv\<close> and returns no data; with \<open>nconv = 0\<close>
  this is so for index \<open>0\<close>.
\<close>

theorem eigenpair_index_out_of_range:
  assumes "init a_k a_m u bcs_arg opts pre eng = Inr self0"
    and "solve self0 n_eig iterate w0 = Inr ((n, its), self, w1)"
    and "int n \<le> i"
  shows "nconv self = Some n \<and> get_eigenpair self i w = Inl OutOfRange"
proof -
  note a = init_attrs [OF assms(1)]
  from a(4) obtain k e where k: "K self0 = Some k" and e: "E self0 = Some e"
    by blast
  from e a(1) assms(2)
  obtain d pairs its'
    where "(case opts of None \<Rightarrow> OptionsDict default_slepc_options | Some d \<Rightarrow> d) = OptionsDict d"
      and "iterate (setFromOptions (e\<lparr>dimensions := n_eig\<rparr>) (set_each (dicts w0 d) w0))
             = Inr (pairs, its')"
      and r: "(n, its) = (length pairs, its')"
      and s: "self = self0\<lparr>E := Some ((setFromOptions (e\<lparr>dimensions := n_eig\<rparr>)
                                         (set_each (dicts w0 d) w0))
                                   \<lparr>converged := pairs, iteration_number := its'\<rparr>),
                      nev := Some n_eig, nconv := Some (length pairs)\<rparr>"
      and "w1 = set_each (dicts w0 d) w0"
    by (rule solve_Inr)
  from r have n: "n = length pairs" by simp
  let ?e = "(setFromOptions (e\<lparr>dimensions := n_eig\<rparr>) (set_each (dicts w0 d) w0))
             \<lparr>converged := pairs, iteration_number := its'\<rparr>"
  from s a(2) k have v: "V self = Some u" and k': "K self = Some k" and e': "E self = Some ?e"
    by simp_all
  have "int (length (converged ?e)) \<le> i"
    using assms(3) n by simp
  then have "getEigenpair ?e i (fst (createVecs k)) (snd (createVecs k)) = Inl OutOfRange"
    by (rule getEigenpair_beyond)
  from get_eigenpair_engine_error [OF v k' e' this] s n show ?thesis
    by simp
qed

lemma initial_default_dict:
  "dicts initial_world default_slepc_options = [(''eps_max_it'', IntVal 100)]"
  by (simp add: initial_world_def)

lemma example_solve:
  "solve example_solver 1 (engine_returns pairs its) initial_world
     = Inr ((length pairs, its), example_solved pairs its, example_world)"
proof -
  have e: "E example_solver = Some example_engine"
    and o: "slepc_options example_solver = Some (OptionsDict default_slepc_options)"
    by (simp_all add: example_solver_def)
  show ?thesis
    unfolding solve_result [OF e o] initial_default_dict
    by (simp add: example_solved_def example_world_def engine_returns_def)
qed

theorem eigenpair_index_out_of_range_witness:
  "solve example_solver 1 (engine_returns [] 100) initial_world
     = Inr ((0, 100), example_solved [] 100, example_world)
   \<and> nconv (example_solved [] 100) = Some 0
   \<and> get_eigenpair (example_solved [] 100) 0 example_world = Inl OutOfRange"
proof -
  have s: "solve example_solver 1 (engine_returns [] 100) initial_world
     = Inr ((0, 100), example_solved [] 100, example_world)"
    using example_solve [of "[]" 100] by simp
  have i: "int 0 \<le> 0" by simp
  from eigenpair_index_out_of_range [OF example_init s i, of example_world] s show ?thesis
    by simp
qed


lemma solve_frame:
  assumes "init a_k a_m u bcs_arg opts pre eng = Inr self0"
    and "solve self0 n_eig iterate w0 = Inr (r, self, w1)"
  shows "V self = V self0" and "bcs self = bcs self0" and "K self = K self0"
    and "projector self = projector self0" and "index_set_not_bc self = index_set_not_bc self0"
    and "\<exists>e. E self = Some e"
    and "heap w1 = heap w0"
proof -
  note a = init_attrs [OF assms(1)]
  from a(4) obtain e where e: "E self0 = Some e"
    by blast
  from e a(1) assms(2)
  obtain d pairs its
    where "(case opts of None \<Rightarrow> OptionsDict default_slepc_options | Some d \<Rightarrow> d) = OptionsDict d"
      and "iterate (setFromOptions (e\<lparr>dimensions := n_eig\<rparr>) (set_each (dicts w0 d) w0))
             = Inr (pairs, its)"
      and "r = (length pairs, its)"
      and s: "self = self0\<lparr>E := Some ((setFromOptions (e\<lparr>dimensions := n_eig\<rparr>)
                                         (set_each (dicts w0 d) w0))
                                   \<lparr>converged := pairs, iteration_number := its\<rparr>),
                      nev := Some n_eig, nconv := Some (length pairs)\<rparr>"
      and w: "w1 = set_each (dicts w0 d) w0"
    by (rule solve_Inr)
  from s show "V self = V self0" and "bcs self = bcs self0" and "K self = K self0"
    and "projector self = projector self0" and "index_set_not_bc self = index_set_not_bc self0"
    and "\<exists>e. E self = Some e"
    by simp_all
  from w show "heap w1 = heap w0"
    by (simp add: set_each_heap)
qed

lemma zero_function_value:
  assumes "in_layout (fst u) (nat (snd u - fst u)) g"
  shows "value_at (zero_function u) g = 0"
proof -
  from assms have "nat (g - fst u) < nat (snd u - fst u)"
    unfolding in_layout_def by arith
  then show ?thesis
    by (simp add: value_at_def zero_function_def)
qed

text \<open>
  Claim C10. With boundary conditions present, the two functions \<open>get_eigenpair\<close>
  returns are new in the store (their addresses are the first two free ones, so they are
  different from each other and from every function that existed before the call, and
  every earlier function keeps its vector), and each of them is zero at every DOF of the
  ownership range that is outside the interior index set.
\<close>

theorem fresh_zero_functions:
  assumes "init a_k a_m u bcs_arg opts pre eng = Inr self0"
    and "index_set_not_bc self0 = Some interior"
    and "solve self0 n_eig iterate w0 = Inr (r, self, w1)"
    and "get_eigenpair self i w = Inr ((eig, u_r, u_im), w')"
  shows "u_r = length (heap w) \<and> u_im = length (heap w) + 1
       \<and> length (heap w') = length (heap w) + 2
       \<and> take (length (heap w)) (heap w') = heap w
       \<and> (\<forall>g. fst u \<le> g \<and> g < snd u \<and> g \<notin> set interior
              \<longrightarrow> value_at (heap w' ! u_r) g = 0 \<and> value_at (heap w' ! u_im) g = 0)"
proof -
  note ne = init_index_set_Some [OF assms(1,2)]
  from init_constrained [OF assms(1) ne] assms(2)
  obtain k1 P where ix: "get_interior_index_set (as_bc_list bcs_arg) u = Inr interior"
    and sc: "Scatter_create (createVecRight k1) (zero_function u) interior = Inr P"
    and v0: "V self0 = Some u" and k0: "K self0 = Some k1"
    and b0: "bcs self0 = Some (as_bc_list bcs_arg)" and p0: "projector self0 = Some P"
    by auto
  note f = solve_frame [OF assms(1,3)]
  from f(6) obtain e where e: "E self = Some e" by blast
  from f(1) v0 have v: "V self = Some u" by simp
  from f(3) k0 have k: "K self = Some k1" by simp
  from f(2) b0 have b: "bcs self = Some (as_bc_list bcs_arg)" by simp
  from f(4) p0 have p: "projector self = Some P" by simp
  note d = interior_distinct [OF ix]
  note c = Scatter_create_Inr [OF sc]
  from c(3) have zs: "vstart (zero_function u) = to_start P"
    and zn: "length (vals (zero_function u)) = to_size P"
    by simp_all
  from assms(4)
  have ge: "(case getEigenpair e i (fst (createVecs k1)) (snd (createVecs k1)) of
        Inl x \<Rightarrow> Inl x
      | Inr (eig, xr, xi) \<Rightarrow>
          (case scatter P xr (zero_function u) of
             Inl x \<Rightarrow> Inl x
           | Inr d \<Rightarrow>
               (case scatter P xi (zero_function u) of
                  Inl x \<Rightarrow> Inl x
                | Inr d' \<Rightarrow>
                    Inr ((eig, length (heap w), Suc (length (heap w))),
                         w\<lparr>heap := heap w @ [d, d']\<rparr>)))) = Inr ((eig, u_r, u_im), w')"
    unfolding get_eigenpair_constrained [OF v k e b ne p] .
  obtain xr xi dr di
    where sr: "scatter P xr (zero_function u) = Inr dr"
      and si: "scatter P xi (zero_function u) = Inr di"
      and ur: "u_r = length (heap w)" and ui: "u_im = Suc (length (heap w))"
      and w': "w' = w\<lparr>heap := heap w @ [dr, di]\<rparr>"
  proof (cases "getEigenpair e i (fst (createVecs k1)) (snd (createVecs k1))")
    case (Inl x)
    with ge show ?thesis by simp
  next
    case (Inr t)
    obtain eig' xr xi where t: "t = (eig', xr, xi)" by (cases t)
    show ?thesis
    proof (cases "scatter P xr (zero_function u)")
      case (Inl x)
      with ge Inr t show ?thesis by simp
    next
      case dr: (Inr dr)
      show ?thesis
      proof (cases "scatter P xi (zero_function u)")
        case (Inl x)
        with ge Inr t dr show ?thesis by simp
      next
        case di: (Inr di)
        from ge Inr t dr di have "u_r = length (heap w)" and "u_im = Suc (length (heap w))"
          and "w' = w\<lparr>heap := heap w @ [dr, di]\<rparr>"
          by simp_all
        with dr di show ?thesis by (rule that)
      qed
    qed
  qed
  from sr have lr: "length (vals xr) = from_size P"
    by (auto simp: scatter_def split: if_splits)
  from si have li: "length (vals xi) = from_size P"
    by (auto simp: scatter_def split: if_splits)
  have lay: "vstart (zero_function u) = fst u"
    "length (vals (zero_function u)) = nat (snd u - fst u)"
    by (simp_all add: zero_function_def)
  from scatter_ok [OF sc d lr zs zn] sr
  have hr: "\<forall>g. in_layout (fst u) (nat (snd u - fst u)) g \<and> g \<notin> set interior
                  \<longrightarrow> value_at dr g = value_at (zero_function u) g"
    unfolding lay by auto
  from scatter_ok [OF sc d li zs zn] si
  have hi: "\<forall>g. in_layout (fst u) (nat (snd u - fst u)) g \<and> g \<notin> set interior
                  \<longrightarrow> value_at di g = value_at (zero_function u) g"
    unfolding lay by auto
  have z: "\<forall>g. fst u \<le> g \<and> g < snd u \<and> g \<notin> set interior
              \<longrightarrow> value_at dr g = 0 \<and> value_at di g = 0"
  proof (intro allI impI)
    fix g assume g: "fst u \<le> g \<and> g < snd u \<and> g \<notin> set interior"
    then have l: "in_layout (fst u) (nat (snd u - fst u)) g"
      by (simp add: in_layout_def)
    with hr hi g zero_function_value [OF l] show "value_at dr g = 0 \<and> value_at di g = 0"
      by simp
  qed
  from ur ui w' z show ?thesis
    by (simp add: nth_append)
qed

theorem fresh_zero_functions_witness:
  "solve example_solver 1 (engine_returns [(2, [5, 7], [0, 0])] 3) initial_world
     = Inr ((1, 3), example_solved [(2, [5, 7], [0, 0])] 3, example_world)
   \<and> get_eigenpair (example_solved [(2, [5, 7], [0, 0])] 3) 0
        (example_world\<lparr>heap := [\<lparr>vstart = 0, vals = [8, 8, 8]\<rparr>]\<rparr>)
       = Inr ((2, 1, 2),
              example_world\<lparr>heap := [\<lparr>vstart = 0, vals = [8, 8, 8]\<rparr>,
                                      \<lparr>vstart = 0, vals = [0, 5, 7]\<rparr>,
                                      \<lparr>vstart = 0, vals = [0, 0, 0]\<rparr>]\<rparr>)
   \<and> value_at \<lparr>vstart = 0, vals = [0, 5, 7]\<rparr> 0 = 0"
proof -
  let ?w = "example_world\<lparr>heap := [\<lparr>vstart = 0, vals = [8, 8, 8]\<rparr>]\<rparr>"
  let ?w' = "example_world\<lparr>heap := [\<lparr>vstart = 0, vals = [8, 8, 8]\<rparr>,
                                      \<lparr>vstart = 0, vals = [0, 5, 7]\<rparr>,
                                      \<lparr>vstart = 0, vals = [0, 0, 0]\<rparr>]\<rparr>"
  have s: "solve example_solver 1 (engine_returns [(2, [5, 7], [0, 0])] 3) initial_world
     = Inr ((1, 3), example_solved [(2, [5, 7], [0, 0])] 3, example_world)"
    using example_solve [of "[(2, [5, 7], [0, 0])]" 3] by simp
  have i: "index_set_not_bc example_solver = Some [1, 2]"
    by (simp add: example_solver_def)
  have a: "V (example_solved [(2, [5, 7], [0, 0])] 3) = Some (0, 3)"
    "K (example_solved [(2, [5, 7], [0, 0])] 3) = Some \<lparr>mstart = 0, mrows = [[2, -1], [-1, 2]]\<rparr>"
    "E (example_solved [(2, [5, 7], [0, 0])] 3)
       = Some ((setFromOptions (example_engine\<lparr>dimensions := 1\<rparr>) example_world)
                 \<lparr>converged := [(2, [5, 7], [0, 0])], iteration_number := 3\<rparr>)"
    "bcs (example_solved [(2, [5, 7], [0, 0])] 3) = Some [DirichletBC [(0, 0)]]"
    "[DirichletBC [(0, 0)]] \<noteq> []"
    "projector (example_solved [(2, [5, 7], [0, 0])] 3) = Some example_projector"
    by (simp_all add: example_solved_def example_solver_def)
  have g: "get_eigenpair (example_solved [(2, [5, 7], [0, 0])] 3) 0 ?w = Inr ((2, 1, 2), ?w')"
    unfolding get_eigenpair_constrained [OF a]
    by (simp add: getEigenpair_def createVecs_def createVecRight_def scatter_def
        example_projector_def zero_function_def eval_nat_numeral)
  from fresh_zero_functions [OF example_init i s g] s g show ?thesis
    by (simp add: value_at_def)
qed

text \<open>
  Claim C3 at the empty list of boundary conditions. The constructor builds no projector,
  and \<open>get_eigenpair\<close> skips the scatter: for the converged eigenvector \<open>[1, 2, 3]\<close> the
  returned real and imaginary functions are both zero everywhere.
\<close>

theorem no_boundary_conditions_zero_functions:
  "init example_K example_M (0, 3) (PyList []) None None None = Inr example_unconstrained
   \<and> solve example_unconstrained 1 (engine_returns [(2, [1, 2, 3], [0, 0, 0])] 3) initial_world
       = Inr ((1, 3), example_unconstrained_solved, example_world)
   \<and> get_eigenpair example_unconstrained_solved 0 example_world
       = Inr ((2, 0, 1),
              example_world\<lparr>heap := [\<lparr>vstart = 0, vals = [0, 0, 0]\<rparr>,
                                      \<lparr>vstart = 0, vals = [0, 0, 0]\<rparr>]\<rparr>)"
proof -
  have t: "\<not> truthy None" by simp
  have i: "init example_K example_M (0, 3) (PyList []) None None None = Inr example_unconstrained"
    unfolding init_empty_list [OF t] by (simp add: example_unconstrained_def)
  have e: "E example_unconstrained
             = Some (eigensolver_setup\<lparr>operators := Some (example_K, example_M)\<rparr>)"
    and o: "slepc_options example_unconstrained = Some (OptionsDict default_slepc_options)"
    by (simp_all add: example_unconstrained_def)
  have s: "solve example_unconstrained 1 (engine_returns [(2, [1, 2, 3], [0, 0, 0])] 3) initial_world
       = Inr ((1, 3), example_unconstrained_solved, example_world)"
    unfolding solve_result [OF e o] initial_default_dict
    by (simp add: example_unconstrained_solved_def example_world_def engine_returns_def)
  have a: "V example_unconstrained_solved = Some (0, 3)"
    "K example_unconstrained_solved = Some example_K"
    "E example_unconstrained_solved
       = Some ((setFromOptions
                      (eigensolver_setup\<lparr>operators := Some (example_K, example_M), dimensions := 1\<rparr>)
                      example_world)
                    \<lparr>converged := [(2, [1, 2, 3], [0, 0, 0])], iteration_number := 3\<rparr>)"
    "bcs example_unconstrained_solved = Some []"
    by (simp_all add: example_unconstrained_solved_def example_unconstrained_def)
  have h: "heap example_world = []"
    unfolding example_world_def set_each_heap by (simp add: initial_world_def)
  have g: "get_eigenpair example_unconstrained_solved 0 example_world
       = Inr ((2, 0, 1),
              example_world\<lparr>heap := [\<lparr>vstart = 0, vals = [0, 0, 0]\<rparr>,
                                      \<lparr>vstart = 0, vals = [0, 0, 0]\<rparr>]\<rparr>)"
    unfolding get_eigenpair_unconstrained [OF a]
    by (simp add: getEigenpair_def h zero_function_def eval_nat_numeral)
  from i s g show ?thesis by simp
qed







end
